theory Spec2Isabelle
  imports Main "HOL-Library.Product_Lexorder"
begin

section \<open>Data model (app/models)\<close>

text \<open>
  The tables of the exchange are lists of rows, in table order. Identifiers (UUIDs in
  the source) are natural numbers, tickers are strings. \<open>Order.amount\<close>,
  \<open>Order.filled\<close> and \<open>Order.price\<close> are integer columns; \<open>User.balance\<close>,
  \<open>UserInventory.quantity\<close> and \<open>Transaction.price\<close> are float columns that the
  order service only ever changes by integers, and they are integers here. Columns that
  the order and balance services never read (names, roles, API keys, the identifiers and
  timestamps of trades and of inventory rows) are left out.
\<close>

datatype DirectionEnum = ASK | BID

datatype OrderStatusEnum = NEW | EXECUTED | PARTIALLY_EXECUTED | CANCELLED

record User =
  u_id :: nat
  balance :: int

record UserInventory =
  inv_user_id :: nat
  inv_instrument_ticker :: string
  quantity :: int

record Order =
  o_id :: nat
  user_id :: nat
  instrument_ticker :: string
  amount :: int
  filled :: int
  price :: "int option"
  direction :: DirectionEnum
  status :: OrderStatusEnum
  created_at :: nat

record Transaction =
  user_from_id :: nat
  user_to_id :: nat
  t_instrument_ticker :: string
  t_amount :: int
  t_price :: int

record db =
  users :: "User list"
  inventories :: "UserInventory list"
  orders :: "Order list"
  transactions :: "Transaction list"
  instruments :: "string list"

section \<open>Exceptions (app/core/exceptions.py)\<close>

text \<open>
  \<open>NotFoundError\<close> keeps its resource, \<open>InsufficientBalanceError\<close> its ticker, required
  and available amounts, \<open>OrderExecutionError\<close> its message. \<open>TypeError\<close>, \<open>KeyError\<close>
  \<open>MultipleResultsFound\<close> and \<open>DBAPIError\<close> are the interpreter's and the ORM's own
  exceptions, raised when an order without a price is compared or multiplied, when a
  dictionary key is missing, when \<open>scalar_one_or_none\<close> finds two rows, and when the
  database refuses a statement.
\<close>

datatype error =
    NotFoundError string
  | ValidationError string
  | InsufficientBalanceError string int int
  | OrderExecutionError string
  | PermissionDeniedError string
  | TypeError string
  | KeyError string
  | MultipleResultsFound
  | DBAPIError string

text \<open>A text between single quotes, as the interpreter's messages have it.\<close>

definition quoted :: "string \<Rightarrow> string" where
  "quoted x = CHR 0x27 # x @ [CHR 0x27]"

definition mul_None_message :: string where
  "mul_None_message =
     ''unsupported operand type(s) for *: '' @ quoted ''int'' @ '' and '' @ quoted ''NoneType''"

definition cmp_None_message :: "string \<Rightarrow> string" where
  "cmp_None_message op =
     quoted op @ '' not supported between instances of '' @ quoted ''NoneType''
       @ '' and '' @ quoted ''int''"

text \<open>\<open>str(e)\<close>: \<open>BaseAppException\<close> hands its \<open>message\<close> to \<open>Exception\<close>.\<close>

fun str_of :: "error \<Rightarrow> string" where
  "str_of (NotFoundError resource) = resource @ '' not found''"
| "str_of (InsufficientBalanceError t r a) = ''Insufficient balance''"
| "str_of (OrderExecutionError m) = m"
| "str_of (ValidationError m) = m"
| "str_of (PermissionDeniedError m) = m"
| "str_of (TypeError m) = m"
| "str_of (KeyError k) = quoted k"
| "str_of MultipleResultsFound = ''Multiple rows were found when one or none was required''"
| "str_of (DBAPIError m) = m"

text \<open>Truth value of an optional integer: \<open>None\<close> and \<open>0\<close> are false.\<close>

definition truthy :: "int option \<Rightarrow> bool" where
  "truthy p = (case p of None \<Rightarrow> False | Some v \<Rightarrow> v \<noteq> 0)"

section \<open>Repositories (app/repositories)\<close>

text \<open>An attribute assignment on a session object changes the one row with its key.\<close>

fun upd_first :: "('a \<Rightarrow> bool) \<Rightarrow> ('a \<Rightarrow> 'a) \<Rightarrow> 'a list \<Rightarrow> 'a list" where
  "upd_first P f [] = []"
| "upd_first P f (x # xs) = (if P x then f x # xs else x # upd_first P f xs)"

definition user_get_by_id :: "db \<Rightarrow> nat \<Rightarrow> User option" where
  "user_get_by_id s uid = find (\<lambda>u. u_id u = uid) (users s)"

definition order_get_by_id :: "db \<Rightarrow> nat \<Rightarrow> Order option" where
  "order_get_by_id s oid = find (\<lambda>x. o_id x = oid) (orders s)"

definition get_by_user_and_ticker :: "db \<Rightarrow> nat \<Rightarrow> string \<Rightarrow> error + UserInventory option" where
  "get_by_user_and_ticker s uid ticker =
     (case filter (\<lambda>i. inv_user_id i = uid \<and> inv_instrument_ticker i = ticker) (inventories s) of
        [] \<Rightarrow> Inr None
      | [i] \<Rightarrow> Inr (Some i)
      | _ \<Rightarrow> Inl MultipleResultsFound)"



text \<open>
  \<open>OrderRepository.get_orders\<close>: \<open>ORDER BY price [DESC], created_at LIMIT limit\<close>,
  with the optional \<open>statuses\<close> at its default, NEW and PARTIALLY_EXECUTED, as every
  caller leaves it. The sort key puts an order without a price where PostgreSQL puts NULL (last when
  ascending, first when descending); rows with equal keys keep their table order.
  The limit is a natural number here: PostgreSQL refuses a negative one, which the
  callers below turn into the exception.
\<close>

definition book_key :: "DirectionEnum \<Rightarrow> Order \<Rightarrow> (nat \<times> int) \<times> nat" where
  "book_key d x =
     (case d of
        BID \<Rightarrow> (case price x of None \<Rightarrow> ((0, 0), created_at x) | Some p \<Rightarrow> ((1, - p), created_at x))
      | ASK \<Rightarrow> (case price x of None \<Rightarrow> ((1, 0), created_at x) | Some p \<Rightarrow> ((0, p), created_at x)))"

definition get_orders :: "db \<Rightarrow> string \<Rightarrow> DirectionEnum \<Rightarrow> nat \<Rightarrow> Order list" where
  "get_orders s ticker d limit =
     take limit (sort_key (book_key d)
       (filter (\<lambda>x. instrument_ticker x = ticker \<and> direction x = d
                     \<and> status x \<in> {NEW, PARTIALLY_EXECUTED}) (orders s)))"

section \<open>Order service (app/services/order_service.py)\<close>

text \<open>
  The argument \<open>base\<close> is the configured \<open>settings.base_instrument_ticker\<close> (RUB by
  default). \<open>add_balance\<close>, \<open>add_quantity\<close> and \<open>flush_order\<close> are the writes
  \<open>user.balance += d\<close>, \<open>inventory.quantity += d\<close> and the flush of a changed order.
  The matching loop reads each order of the book once, as the query returned it, and
  writes it back under its identifier.
\<close>

definition add_balance :: "nat \<Rightarrow> int \<Rightarrow> db \<Rightarrow> db" where
  "add_balance uid d s =
     s\<lparr>users := upd_first (\<lambda>u. u_id u = uid) (\<lambda>u. u\<lparr>balance := balance u + d\<rparr>) (users s)\<rparr>"

definition add_quantity :: "nat \<Rightarrow> string \<Rightarrow> int \<Rightarrow> db \<Rightarrow> db" where
  "add_quantity uid ticker d s =
     s\<lparr>inventories := upd_first (\<lambda>i. inv_user_id i = uid \<and> inv_instrument_ticker i = ticker)
                         (\<lambda>i. i\<lparr>quantity := quantity i + d\<rparr>) (inventories s)\<rparr>"

definition flush_order :: "Order \<Rightarrow> db \<Rightarrow> db" where
  "flush_order order s = s\<lparr>orders := upd_first (\<lambda>x. o_id x = o_id order) (\<lambda>_. order) (orders s)\<rparr>"

definition execute_buy :: "string \<Rightarrow> db \<Rightarrow> nat \<Rightarrow> nat \<Rightarrow> string \<Rightarrow> int option \<Rightarrow> int \<Rightarrow> error + db" where
  "execute_buy base s seller_id buyer_id ticker pr amt =
     (case get_by_user_and_ticker s buyer_id ticker of
        Inl e \<Rightarrow> Inl e
      | Inr buyer_inv \<Rightarrow>
         (case (user_get_by_id s buyer_id, user_get_by_id s seller_id, buyer_inv) of
            (Some buyer, Some seller, Some bi) \<Rightarrow>
              (case pr of
                 None \<Rightarrow> Inl (TypeError mul_None_message)
               | Some p \<Rightarrow>
                  (let total_cost = amt * p in
                   if balance buyer < total_cost
                   then Inl (InsufficientBalanceError base total_cost (balance buyer))
                   else Inr (add_quantity buyer_id ticker amt
                          (add_balance buyer_id (- total_cost)
                            (add_balance seller_id total_cost
                              (s\<lparr>transactions := transactions s @
                                   [\<lparr>user_from_id = seller_id, user_to_id = buyer_id,
                                     t_instrument_ticker = ticker, t_amount = amt,
                                     t_price = p\<rparr>]\<rparr>))))))
          | _ \<Rightarrow> Inl (NotFoundError ''User or inventory'')))"

definition execute_sell :: "db \<Rightarrow> nat \<Rightarrow> nat \<Rightarrow> string \<Rightarrow> int option \<Rightarrow> int \<Rightarrow> error + db" where
  "execute_sell s seller_id buyer_id ticker pr amt =
     (case get_by_user_and_ticker s seller_id ticker of
        Inl e \<Rightarrow> Inl e
      | Inr seller_inv \<Rightarrow>
         (case get_by_user_and_ticker s buyer_id ticker of
            Inl e \<Rightarrow> Inl e
          | Inr buyer_inv \<Rightarrow>
             (case (user_get_by_id s seller_id, user_get_by_id s buyer_id, seller_inv, buyer_inv) of
                (Some seller, Some buyer, Some si, Some bi) \<Rightarrow>
                  (if quantity si < amt
                   then Inl (InsufficientBalanceError ticker amt (quantity si))
                   else (case pr of
                           None \<Rightarrow> Inl (TypeError mul_None_message)
                         | Some p \<Rightarrow>
                            (let total_cost = amt * p in
                             Inr (add_quantity buyer_id ticker amt
                                   (add_quantity seller_id ticker (- amt)
                                     (add_balance seller_id total_cost
                                       (s\<lparr>transactions := transactions s @
                                            [\<lparr>user_from_id = seller_id, user_to_id = buyer_id,
                                              t_instrument_ticker = ticker, t_amount = amt,
                                              t_price = p\<rparr>]\<rparr>)))))))
              | _ \<Rightarrow> Inl (NotFoundError ''User or inventory''))))"

definition partially_execute_order :: "Order \<Rightarrow> int \<Rightarrow> error + Order" where
  "partially_execute_order order amt =
     (if amount order < amt then Inl (OrderExecutionError ''Order amount insufficient'')
      else Inr (order\<lparr>amount := amount order - amt,
                      filled := filled order + amt,
                      status := (if amount order - amt = 0 then EXECUTED
                                 else PARTIALLY_EXECUTED)\<rparr>))"

definition freeze_balance :: "string \<Rightarrow> db \<Rightarrow> nat \<Rightarrow> string \<Rightarrow> int \<Rightarrow> error + db" where
  "freeze_balance base s uid ticker amt =
     (case user_get_by_id s uid of
        None \<Rightarrow> Inl (NotFoundError ''User'')
      | Some user \<Rightarrow>
         (if ticker = base then
            (if balance user < amt then Inl (InsufficientBalanceError ticker amt (balance user))
             else Inr (add_balance uid (- amt) s))
          else
            (case get_by_user_and_ticker s uid ticker of
               Inl e \<Rightarrow> Inl e
             | Inr None \<Rightarrow> Inl (NotFoundError ''Inventory'')
             | Inr (Some inventory) \<Rightarrow>
                (if quantity inventory < amt
                 then Inl (InsufficientBalanceError ticker amt (quantity inventory))
                 else Inr (add_quantity uid ticker (- amt) s)))))"

definition unfreeze_balance :: "string \<Rightarrow> db \<Rightarrow> nat \<Rightarrow> string \<Rightarrow> int \<Rightarrow> error + db" where
  "unfreeze_balance base s uid ticker amt =
     (case user_get_by_id s uid of
        None \<Rightarrow> Inl (NotFoundError ''User'')
      | Some user \<Rightarrow>
         (if ticker = base then Inr (add_balance uid amt s)
          else
            (case get_by_user_and_ticker s uid ticker of
               Inl e \<Rightarrow> Inl e
             | Inr None \<Rightarrow> Inr s
             | Inr (Some inventory) \<Rightarrow> Inr (add_quantity uid ticker amt s))))"

text \<open>
  The matching loops. \<open>buy_break\<close> and \<open>sell_break\<close> are the loops' exit tests
  (\<open>new_order.amount == 0 or (price and order.price > price)\<close>), \<open>buy_step\<close> and
  \<open>sell_step\<close> their bodies.
\<close>

definition buy_break :: "Order \<Rightarrow> int option \<Rightarrow> Order \<Rightarrow> error + bool" where
  "buy_break new_order pr order =
     (if amount new_order = 0 then Inr True
      else if truthy pr then
        (case (price order, pr) of
           (Some po, Some p) \<Rightarrow> Inr (po > p)
         | _ \<Rightarrow> Inl (TypeError (cmp_None_message ''>'')))
      else Inr False)"

definition sell_break :: "Order \<Rightarrow> int option \<Rightarrow> Order \<Rightarrow> error + bool" where
  "sell_break new_order pr order =
     (if amount new_order = 0 then Inr True
      else if truthy pr then
        (case (price order, pr) of
           (Some po, Some p) \<Rightarrow> Inr (po < p)
         | _ \<Rightarrow> Inl (TypeError (cmp_None_message ''<'')))
      else Inr False)"

definition buy_step :: "string \<Rightarrow> db \<Rightarrow> Order \<Rightarrow> nat \<Rightarrow> string \<Rightarrow> Order \<Rightarrow> error + (db \<times> Order)" where
  "buy_step base s new_order uid ticker order =
     (let count_to_buy = min (amount order) (amount new_order) in
      case execute_buy base s (user_id order) uid ticker (price order) count_to_buy of
        Inl e \<Rightarrow> Inl e
      | Inr s1 \<Rightarrow>
         (case partially_execute_order order count_to_buy of
            Inl e \<Rightarrow> Inl e
          | Inr order' \<Rightarrow>
             (case partially_execute_order new_order count_to_buy of
                Inl e \<Rightarrow> Inl e
              | Inr new_order' \<Rightarrow> Inr (flush_order order' s1, new_order'))))"

definition sell_step :: "db \<Rightarrow> Order \<Rightarrow> nat \<Rightarrow> string \<Rightarrow> Order \<Rightarrow> error + (db \<times> Order)" where
  "sell_step s new_order uid ticker order =
     (let count_to_sell = min (amount order) (amount new_order) in
      case execute_sell s uid (user_id order) ticker (price order) count_to_sell of
        Inl e \<Rightarrow> Inl e
      | Inr s1 \<Rightarrow>
         (case partially_execute_order order count_to_sell of
            Inl e \<Rightarrow> Inl e
          | Inr order' \<Rightarrow>
             (case partially_execute_order new_order count_to_sell of
                Inl e \<Rightarrow> Inl e
              | Inr new_order' \<Rightarrow> Inr (flush_order order' s1, new_order'))))"

fun match_buy :: "string \<Rightarrow> db \<Rightarrow> Order \<Rightarrow> int option \<Rightarrow> nat \<Rightarrow> string \<Rightarrow> Order list
                    \<Rightarrow> error + (db \<times> Order)" where
  "match_buy base s new_order pr uid ticker [] = Inr (s, new_order)"
| "match_buy base s new_order pr uid ticker (order # orderbook) =
     (case buy_break new_order pr order of
        Inl e \<Rightarrow> Inl e
      | Inr stop \<Rightarrow>
         (if stop then Inr (s, new_order)
          else (case buy_step base s new_order uid ticker order of
                  Inl e \<Rightarrow> Inl e
                | Inr (s', new_order') \<Rightarrow> match_buy base s' new_order' pr uid ticker orderbook)))"

fun match_sell :: "db \<Rightarrow> Order \<Rightarrow> int option \<Rightarrow> nat \<Rightarrow> string \<Rightarrow> Order list
                    \<Rightarrow> error + (db \<times> Order)" where
  "match_sell s new_order pr uid ticker [] = Inr (s, new_order)"
| "match_sell s new_order pr uid ticker (order # orderbook) =
     (case sell_break new_order pr order of
        Inl e \<Rightarrow> Inl e
      | Inr stop \<Rightarrow>
         (if stop then Inr (s, new_order)
          else (case sell_step s new_order uid ticker order of
                  Inl e \<Rightarrow> Inl e
                | Inr (s', new_order') \<Rightarrow> match_sell s' new_order' pr uid ticker orderbook)))"

text \<open>The residual freeze that follows the loop, inside the same \<open>try\<close>.\<close>

definition buy_residue :: "string \<Rightarrow> db \<Rightarrow> Order \<Rightarrow> int option \<Rightarrow> nat \<Rightarrow> error + db" where
  "buy_residue base s new_order pr uid =
     (if status new_order \<noteq> EXECUTED then
        (if truthy pr then
           (case price new_order of
              None \<Rightarrow> Inl (TypeError mul_None_message)
            | Some p \<Rightarrow> freeze_balance base s uid base (amount new_order * p))
         else Inl (OrderExecutionError ''Not enough orders for market buy''))
      else Inr s)"

definition sell_residue :: "string \<Rightarrow> db \<Rightarrow> Order \<Rightarrow> int option \<Rightarrow> nat \<Rightarrow> string \<Rightarrow> error + db" where
  "sell_residue base s new_order pr uid ticker =
     (if status new_order \<noteq> EXECUTED then
        (if truthy pr then freeze_balance base s uid ticker (amount new_order)
         else Inl (OrderExecutionError ''Not enough orders for market sell''))
      else Inr s)"

text \<open>
  \<open>create_limit_buy_order\<close> and \<open>create_limit_sell_order\<close> return the session's state
  after the call together with the order or the exception. \<open>new_id\<close> and \<open>now\<close> are the
  column defaults \<open>uuid4()\<close> and \<open>utcnow()\<close>. The book is read before the \<open>try\<close>, so
  the database's refusal of a negative limit is not caught. In the \<open>except\<close> branch the
  session is rolled back to the state \<open>s\<close> the request started from, the order is reset
  to CANCELLED, added and flushed, and \<open>OrderExecutionError(str(e))\<close> is raised. The
  caller is an existing user and the ticker an existing instrument (the endpoint looks
  both up), so the foreign keys of the inserted order hold.
\<close>

definition session_add :: "Order \<Rightarrow> db \<Rightarrow> db" where
  "session_add order s = s\<lparr>orders := orders s @ [order]\<rparr>"

definition new_Order ::
  "nat \<Rightarrow> nat \<Rightarrow> string \<Rightarrow> int \<Rightarrow> int option \<Rightarrow> DirectionEnum \<Rightarrow> nat \<Rightarrow> Order" where
  "new_Order new_id uid ticker qty pr d now =
     \<lparr>o_id = new_id, user_id = uid, instrument_ticker = ticker, amount = qty, filled = 0,
      price = pr, direction = d, status = NEW, created_at = now\<rparr>"

definition create_limit_buy_order ::
  "string \<Rightarrow> db \<Rightarrow> nat \<Rightarrow> nat \<Rightarrow> string \<Rightarrow> int \<Rightarrow> int option \<Rightarrow> nat \<Rightarrow> db \<times> (error + Order)" where
  "create_limit_buy_order base s new_id now ticker qty pr uid =
     (if qty < 0 then (s, Inl (DBAPIError ''LIMIT must not be negative'')) else
      let orderbook = get_orders s ticker ASK (nat qty);
          new_order = new_Order new_id uid ticker qty pr BID now;
          cancelled = session_add (new_order\<lparr>filled := 0, amount := qty, status := CANCELLED\<rparr>) s
      in case match_buy base s new_order pr uid ticker orderbook of
           Inl e \<Rightarrow> (cancelled, Inl (OrderExecutionError (str_of e)))
         | Inr (s1, new_order1) \<Rightarrow>
            (case buy_residue base s1 new_order1 pr uid of
               Inl e \<Rightarrow> (cancelled, Inl (OrderExecutionError (str_of e)))
             | Inr s2 \<Rightarrow> (session_add new_order1 s2, Inr new_order1)))"

definition create_limit_sell_order ::
  "string \<Rightarrow> db \<Rightarrow> nat \<Rightarrow> nat \<Rightarrow> string \<Rightarrow> int \<Rightarrow> int option \<Rightarrow> nat \<Rightarrow> db \<times> (error + Order)" where
  "create_limit_sell_order base s new_id now ticker qty pr uid =
     (if qty < 0 then (s, Inl (DBAPIError ''LIMIT must not be negative'')) else
      let orderbook = get_orders s ticker BID (nat qty);
          new_order = new_Order new_id uid ticker qty pr ASK now;
          cancelled = session_add (new_order\<lparr>filled := 0, amount := qty, status := CANCELLED\<rparr>) s
      in case match_sell s new_order pr uid ticker orderbook of
           Inl e \<Rightarrow> (cancelled, Inl (OrderExecutionError (str_of e)))
         | Inr (s1, new_order1) \<Rightarrow>
            (case sell_residue base s1 new_order1 pr uid ticker of
               Inl e \<Rightarrow> (cancelled, Inl (OrderExecutionError (str_of e)))
             | Inr s2 \<Rightarrow> (session_add new_order1 s2, Inr new_order1)))"

definition create_market_buy_order ::
  "string \<Rightarrow> db \<Rightarrow> nat \<Rightarrow> nat \<Rightarrow> string \<Rightarrow> int \<Rightarrow> nat \<Rightarrow> db \<times> (error + Order)" where
  "create_market_buy_order base s new_id now ticker qty uid =
     create_limit_buy_order base s new_id now ticker qty None uid"

definition create_market_sell_order ::
  "string \<Rightarrow> db \<Rightarrow> nat \<Rightarrow> nat \<Rightarrow> string \<Rightarrow> int \<Rightarrow> nat \<Rightarrow> db \<times> (error + Order)" where
  "create_market_sell_order base s new_id now ticker qty uid =
     create_limit_sell_order base s new_id now ticker qty None uid"

text \<open>
  \<open>cancel_order\<close> raises before it changes anything, so an exception leaves the session
  as it was and only the exception is returned.
\<close>

definition cancel_order :: "string \<Rightarrow> db \<Rightarrow> nat \<Rightarrow> nat \<Rightarrow> error + (db \<times> Order)" where
  "cancel_order base s order_id uid =
     (case order_get_by_id s order_id of
        None \<Rightarrow> Inl (NotFoundError ''Order'')
      | Some order \<Rightarrow>
         (if user_id order \<noteq> uid then Inl (OrderExecutionError ''Order does not belong to user'')
          else if status order \<in> {PARTIALLY_EXECUTED, EXECUTED, CANCELLED}
          then Inl (OrderExecutionError ''Order already executed/partially_executed/cancelled'')
          else (case price order of
                  None \<Rightarrow> Inl (OrderExecutionError ''Cannot cancel market order'')
                | Some p \<Rightarrow>
                   (case (case direction order of
                            ASK \<Rightarrow> unfreeze_balance base s uid (instrument_ticker order) (amount order)
                          | BID \<Rightarrow> unfreeze_balance base s uid base (amount order * p)) of
                      Inl e \<Rightarrow> Inl e
                    | Inr s1 \<Rightarrow>
                       (let order' = order\<lparr>status := CANCELLED\<rparr>
                        in Inr (flush_order order' s1, order'))))))"

section \<open>Order endpoints (app/api/v1/order.py)\<close>

text \<open>
  An endpoint returns the committed state of the database and the response. An
  exception that the endpoint does not catch leaves it as \<open>Unhandled\<close>; the session
  is then closed without a commit. \<open>place_order\<close> is the dispatch on direction and
  price inside the endpoint's \<open>try\<close>; the request schema admits only a quantity above 0
  and a price that is absent or above 0.
\<close>

datatype side = BUY | SELL

datatype response =
    OrderCreated nat
  | SuccessResponse
  | HTTPException nat string
  | Unhandled error

definition place_order ::
  "string \<Rightarrow> db \<Rightarrow> nat \<Rightarrow> nat \<Rightarrow> side \<Rightarrow> string \<Rightarrow> int \<Rightarrow> int option \<Rightarrow> nat \<Rightarrow> db \<times> (error + Order)" where
  "place_order base s new_id now dir ticker qty pr uid =
     (if dir = BUY then
        (if truthy pr then create_limit_buy_order base s new_id now ticker qty pr uid
         else create_market_buy_order base s new_id now ticker qty uid)
      else
        (if truthy pr then create_limit_sell_order base s new_id now ticker qty pr uid
         else create_market_sell_order base s new_id now ticker qty uid))"

definition create_order ::
  "string \<Rightarrow> db \<Rightarrow> nat \<Rightarrow> nat \<Rightarrow> side \<Rightarrow> string \<Rightarrow> int \<Rightarrow> int option \<Rightarrow> nat \<Rightarrow> db \<times> response" where
  "create_order base s new_id now dir ticker qty pr uid =
     (if ticker \<notin> set (instruments s)
      then (s, HTTPException 404 (''Instrument with ticker '' @ quoted ticker @ '' not found''))
      else
        (case place_order base s new_id now dir ticker qty pr uid of
           (s', Inr order) \<Rightarrow>
             (if status order = CANCELLED then (s', HTTPException 422 ''ORDER CANCELLED'')
              else (s', OrderCreated (o_id order)))
         | (s', Inl (OrderExecutionError m)) \<Rightarrow> (s, HTTPException 422 m)
         | (s', Inl e) \<Rightarrow> (s, Unhandled e)))"

definition api_cancel_order :: "string \<Rightarrow> db \<Rightarrow> nat \<Rightarrow> nat \<Rightarrow> db \<times> response" where
  "api_cancel_order base s order_id uid =
     (case cancel_order base s order_id uid of
        Inr (s', order) \<Rightarrow> (s', SuccessResponse)
      | Inl (OrderExecutionError m) \<Rightarrow> (s, HTTPException 400 m)
      | Inl e \<Rightarrow> (s, Unhandled e))"

section \<open>Balance service (app/services/balance_service.py)\<close>



section \<open>Notions used in the statements\<close>

text \<open>An operation fails with \<open>NotFound\<close> or \<open>Forbidden\<close> and with no other kind.\<close>

definition fails_NotFound_or_Forbidden :: "error + 'a \<Rightarrow> bool" where
  "fails_NotFound_or_Forbidden r =
     (case r of Inl (NotFoundError _) \<Rightarrow> True | Inl (PermissionDeniedError _) \<Rightarrow> True
      | _ \<Rightarrow> False)"




text \<open>
  \<open>goes_before d a b\<close>: on the side \<open>d\<close> of a book, order \<open>a\<close> has a strictly better
  price than \<open>b\<close> (lower for ASK, higher for BID), or the same price and a creation
  time that is not later. An order without a price stands where NULL sorts.
\<close>

definition goes_before :: "DirectionEnum \<Rightarrow> Order \<Rightarrow> Order \<Rightarrow> bool" where
  "goes_before d a b =
     (case (price a, price b) of
        (Some pa, Some pb) \<Rightarrow>
          (case d of ASK \<Rightarrow> pa < pb | BID \<Rightarrow> pb < pa) \<or> (pa = pb \<and> created_at a \<le> created_at b)
      | (None, None) \<Rightarrow> created_at a \<le> created_at b
      | (None, Some pb) \<Rightarrow> d = BID
      | (Some pa, None) \<Rightarrow> d = ASK)"

text \<open>
  The side of the book an incoming order is matched against, the resting party of a
  trade, and the trades a call appended to the trade table.
\<close>

definition opposite :: "side \<Rightarrow> DirectionEnum" where
  "opposite dir = (case dir of BUY \<Rightarrow> ASK | SELL \<Rightarrow> BID)"

definition resting_party :: "side \<Rightarrow> Transaction \<Rightarrow> nat" where
  "resting_party dir t = (case dir of BUY \<Rightarrow> user_from_id t | SELL \<Rightarrow> user_to_id t)"

definition new_trades :: "db \<Rightarrow> db \<Rightarrow> Transaction list" where
  "new_trades s s' = drop (length (transactions s)) (transactions s')"

text \<open>
  The invariant of a stored order, and the quantity it was submitted with as the order
  endpoints report it (\<open>"qty": order.amount + order.filled\<close>).
\<close>

definition order_invariant :: "Order \<Rightarrow> bool" where
  "order_invariant x =
     (0 \<le> amount x \<and> 0 \<le> filled x
      \<and> (status x \<in> {NEW, PARTIALLY_EXECUTED} \<longrightarrow> 0 < amount x)
      \<and> (status x = EXECUTED \<longrightarrow> amount x = 0))"

definition qty_of :: "Order \<Rightarrow> int" where
  "qty_of x = amount x + filled x"

definition id_qty :: "Order \<Rightarrow> nat \<times> int" where
  "id_qty x = (o_id x, qty_of x)"














section \<open>Concrete states\<close>

text \<open>
  The book of the specification's scenario 3: Alice (user 1) has a resting SELL of 5
  MEMCOIN at 100, its units already frozen out of her inventory; Bob (user 2) holds
  1000 RUB.
\<close>

definition scenario_book :: db where
  "scenario_book =
     \<lparr>users = [\<lparr>u_id = 1, balance = 0\<rparr>, \<lparr>u_id = 2, balance = 1000\<rparr>],
      inventories = [\<lparr>inv_user_id = 1, inv_instrument_ticker = ''MEMCOIN'', quantity = 5\<rparr>,
                     \<lparr>inv_user_id = 2, inv_instrument_ticker = ''MEMCOIN'', quantity = 0\<rparr>],
      orders = [\<lparr>o_id = 10, user_id = 1, instrument_ticker = ''MEMCOIN'', amount = 5,
                 filled = 0, price = Some 100, direction = ASK, status = NEW, created_at = 1\<rparr>],
      transactions = [], instruments = [''MEMCOIN'']\<rparr>"

text \<open>
  A resting SELL whose owner has no inventory row for the order's ticker.
\<close>

definition scenario_no_row :: db where
  "scenario_no_row =
     \<lparr>users = [\<lparr>u_id = 1, balance = 0\<rparr>],
      inventories = [],
      orders = [\<lparr>o_id = 10, user_id = 1, instrument_ticker = ''MEMCOIN'', amount = 5,
                 filled = 0, price = Some 100, direction = ASK, status = NEW, created_at = 1\<rparr>],
      transactions = [], instruments = [''MEMCOIN'']\<rparr>"


text \<open>
  The specification's scenario 4: two resting SELLs at 100, Carol's (user 3, time 1) and
  Dave's (user 4, time 2), stored in the table in the opposite order; Eve is user 5.
\<close>

definition scenario_priority :: db where
  "scenario_priority =
     \<lparr>users = [\<lparr>u_id = 3, balance = 0\<rparr>, \<lparr>u_id = 4, balance = 0\<rparr>, \<lparr>u_id = 5, balance = 1000\<rparr>],
      inventories = [\<lparr>inv_user_id = 3, inv_instrument_ticker = ''MEMCOIN'', quantity = 0\<rparr>,
                     \<lparr>inv_user_id = 4, inv_instrument_ticker = ''MEMCOIN'', quantity = 0\<rparr>,
                     \<lparr>inv_user_id = 5, inv_instrument_ticker = ''MEMCOIN'', quantity = 0\<rparr>],
      orders = [\<lparr>o_id = 21, user_id = 4, instrument_ticker = ''MEMCOIN'', amount = 10,
                 filled = 0, price = Some 100, direction = ASK, status = NEW, created_at = 2\<rparr>,
                \<lparr>o_id = 20, user_id = 3, instrument_ticker = ''MEMCOIN'', amount = 5,
                 filled = 0, price = Some 100, direction = ASK, status = NEW, created_at = 1\<rparr>],
      transactions = [], instruments = [''MEMCOIN'']\<rparr>"

section \<open>Cancellation by a caller who does not own the order\<close>

lemma order_get_by_id_scenario_book:
  "order_get_by_id scenario_book 10 =
     Some \<lparr>o_id = 10, user_id = 1, instrument_ticker = ''MEMCOIN'', amount = 5, filled = 0,
           price = Some 100, direction = ASK, status = NEW, created_at = 1\<rparr>"
  by (simp add: order_get_by_id_def scenario_book_def)

text \<open>
  C9 at a concrete request: Bob (user 2) asks to cancel Alice's order 10. The order
  exists, so the service raises \<open>OrderExecutionError\<close>, which is neither \<open>NotFound\<close> nor
  \<open>Forbidden\<close>, and the endpoint answers 400; the state is left as it was.
\<close>

theorem cancel_non_owner_evaluated:
  "cancel_order ''RUB'' scenario_book 10 2
     = Inl (OrderExecutionError ''Order does not belong to user'')
   \<and> \<not> fails_NotFound_or_Forbidden (cancel_order ''RUB'' scenario_book 10 2)
   \<and> api_cancel_order ''RUB'' scenario_book 10 2
        = (scenario_book, HTTPException 400 ''Order does not belong to user'')"
  by (simp add: cancel_order_def api_cancel_order_def order_get_by_id_scenario_book
        fails_NotFound_or_Forbidden_def)

section \<open>A market order that the book cannot fill\<close>

text \<open>
  C2 at the specification's scenario 3: Bob submits a market BUY of 10 against Alice's
  resting 5. The service raises \<open>OrderExecutionError\<close> after adding the CANCELLED order;
  the endpoint catches it and rolls back, so no order is stored, and the response carries
  the service's message rather than "ORDER CANCELLED".
\<close>

theorem market_residue_evaluated:
  "create_order ''RUB'' scenario_book 11 2 BUY ''MEMCOIN'' 10 None 2
     = (scenario_book, HTTPException 422 ''Not enough orders for market buy'')"
  by code_simp

section \<open>Rows changed in place\<close>













section \<open>The missing inventory row at cancellation\<close>

text \<open>
  C10: cancelling a NEW ASK limit order, on a ticker other than the base instrument, whose
  owner has no inventory row for that ticker: the unfreeze step returns the state as it
  is, where the freeze step raises \<open>NotFoundError\<close> for the same missing row; the
  cancellation succeeds, the order becomes CANCELLED, and no balance and no inventory
  row changes, so the frozen units are credited to nobody.
\<close>

theorem cancel_ask_missing_inventory_row:
  assumes "order_get_by_id s order_id = Some order"
      and "user_id order = uid" and "status order = NEW" and "direction order = ASK"
      and "price order = Some p" and "instrument_ticker order \<noteq> base"
      and "user_get_by_id s uid = Some user"
      and "get_by_user_and_ticker s uid (instrument_ticker order) = Inr None"
  shows "unfreeze_balance base s uid (instrument_ticker order) (amount order) = Inr s
       \<and> freeze_balance base s uid (instrument_ticker order) (amount order)
           = Inl (NotFoundError ''Inventory'')
       \<and> cancel_order base s order_id uid
           = Inr (flush_order (order\<lparr>status := CANCELLED\<rparr>) s, order\<lparr>status := CANCELLED\<rparr>)
       \<and> api_cancel_order base s order_id uid
           = (flush_order (order\<lparr>status := CANCELLED\<rparr>) s, SuccessResponse)
       \<and> users (flush_order (order\<lparr>status := CANCELLED\<rparr>) s) = users s
       \<and> inventories (flush_order (order\<lparr>status := CANCELLED\<rparr>) s) = inventories s"
proof -
  have u: "unfreeze_balance base s uid (instrument_ticker order) (amount order) = Inr s"
    using assms by (simp add: unfreeze_balance_def)
  have f: "freeze_balance base s uid (instrument_ticker order) (amount order)
             = Inl (NotFoundError ''Inventory'')"
    using assms by (simp add: freeze_balance_def)
  have c: "cancel_order base s order_id uid
             = Inr (flush_order (order\<lparr>status := CANCELLED\<rparr>) s, order\<lparr>status := CANCELLED\<rparr>)"
    using assms u by (simp add: cancel_order_def Let_def)
  have a: "api_cancel_order base s order_id uid
             = (flush_order (order\<lparr>status := CANCELLED\<rparr>) s, SuccessResponse)"
    using c by (simp add: api_cancel_order_def)
  show ?thesis using u f c a by (simp add: flush_order_def)
qed

theorem cancel_ask_missing_inventory_row_witness:
  "cancel_order ''RUB'' scenario_no_row 10 1
     = Inr (scenario_no_row\<lparr>orders :=
              [\<lparr>o_id = 10, user_id = 1, instrument_ticker = ''MEMCOIN'', amount = 5, filled = 0,
                price = Some 100, direction = ASK, status = CANCELLED, created_at = 1\<rparr>]\<rparr>,
            \<lparr>o_id = 10, user_id = 1, instrument_ticker = ''MEMCOIN'', amount = 5, filled = 0,
              price = Some 100, direction = ASK, status = CANCELLED, created_at = 1\<rparr>)
   \<and> freeze_balance ''RUB'' scenario_no_row 1 ''MEMCOIN'' 5 = Inl (NotFoundError ''Inventory'')"
proof -
  let ?order = "\<lparr>o_id = 10, user_id = 1, instrument_ticker = ''MEMCOIN'', amount = 5, filled = 0,
                  price = Some 100, direction = ASK, status = NEW, created_at = 1\<rparr>"
  have h1: "order_get_by_id scenario_no_row 10 = Some ?order"
    by (simp add: order_get_by_id_def scenario_no_row_def)
  have h2: "user_id ?order = 1" and h3: "status ?order = NEW" and h4: "direction ?order = ASK"
    and h5: "price ?order = Some 100" and h6: "instrument_ticker ?order \<noteq> ''RUB''"
    by simp_all
  have h7: "user_get_by_id scenario_no_row 1 = Some \<lparr>u_id = 1, balance = 0\<rparr>"
    by (simp add: user_get_by_id_def scenario_no_row_def)
  have h8: "get_by_user_and_ticker scenario_no_row 1 (instrument_ticker ?order) = Inr None"
    by (simp add: get_by_user_and_ticker_def scenario_no_row_def)
  show ?thesis
    using cancel_ask_missing_inventory_row [OF h1 h2 h3 h4 h5 h6 h7 h8]
    by (simp add: flush_order_def scenario_no_row_def)
qed

section \<open>Failure of the residual freeze\<close>






section \<open>Placing a limit order and cancelling it\<close>







lemma freeze_balance_orders: "freeze_balance base s uid t a = Inr sf \<Longrightarrow> orders sf = orders s"
  by (auto simp: freeze_balance_def add_balance_def add_quantity_def
           split: option.splits sum.splits if_splits)

lemma create_limit_buy_order_Inr:
  assumes "create_limit_buy_order base s new_id now ticker qty pr uid = (s1, Inr order)"
  shows "\<exists>s' s2. match_buy base s (new_Order new_id uid ticker qty pr BID now) pr uid ticker
                     (get_orders s ticker ASK (nat qty)) = Inr (s', order)
                 \<and> buy_residue base s' order pr uid = Inr s2 \<and> s1 = session_add order s2"
  using assms
  by (auto simp: create_limit_buy_order_def Let_def split: sum.splits prod.splits if_splits)

lemma create_limit_sell_order_Inr:
  assumes "create_limit_sell_order base s new_id now ticker qty pr uid = (s1, Inr order)"
  shows "\<exists>s' s2. match_sell s (new_Order new_id uid ticker qty pr ASK now) pr uid ticker
                     (get_orders s ticker BID (nat qty)) = Inr (s', order)
                 \<and> sell_residue base s' order pr uid ticker = Inr s2 \<and> s1 = session_add order s2"
  using assms
  by (auto simp: create_limit_sell_order_def Let_def split: sum.splits prod.splits if_splits)




section \<open>Trades follow the book\<close>

lemma execute_buy_Inr:
  assumes "execute_buy base s seller_id buyer_id ticker pr amt = Inr s1"
  shows "\<exists>p buyer seller bi.
           pr = Some p \<and> user_get_by_id s buyer_id = Some buyer
         \<and> user_get_by_id s seller_id = Some seller
         \<and> get_by_user_and_ticker s buyer_id ticker = Inr (Some bi)
         \<and> amt * p \<le> balance buyer
         \<and> s1 = add_quantity buyer_id ticker amt
                  (add_balance buyer_id (- (amt * p))
                    (add_balance seller_id (amt * p)
                      (s\<lparr>transactions := transactions s @
                           [\<lparr>user_from_id = seller_id, user_to_id = buyer_id,
                             t_instrument_ticker = ticker, t_amount = amt, t_price = p\<rparr>]\<rparr>)))"
  using assms
  by (auto simp: execute_buy_def Let_def split: sum.splits option.splits if_splits)

lemma execute_sell_Inr:
  assumes "execute_sell s seller_id buyer_id ticker pr amt = Inr s1"
  shows "\<exists>p buyer seller si bi.
           pr = Some p \<and> user_get_by_id s buyer_id = Some buyer
         \<and> user_get_by_id s seller_id = Some seller
         \<and> get_by_user_and_ticker s seller_id ticker = Inr (Some si)
         \<and> get_by_user_and_ticker s buyer_id ticker = Inr (Some bi)
         \<and> amt \<le> quantity si
         \<and> s1 = add_quantity buyer_id ticker amt
                  (add_quantity seller_id ticker (- amt)
                    (add_balance seller_id (amt * p)
                      (s\<lparr>transactions := transactions s @
                           [\<lparr>user_from_id = seller_id, user_to_id = buyer_id,
                             t_instrument_ticker = ticker, t_amount = amt, t_price = p\<rparr>]\<rparr>)))"
  using assms
  by (auto simp: execute_sell_def Let_def split: sum.splits option.splits if_splits)

lemma buy_step_Inr:
  assumes "buy_step base s n uid ticker x = Inr (s', n')"
  shows "\<exists>s1 x'. execute_buy base s (user_id x) uid ticker (price x) (min (amount x) (amount n)) = Inr s1
           \<and> partially_execute_order x (min (amount x) (amount n)) = Inr x'
           \<and> partially_execute_order n (min (amount x) (amount n)) = Inr n'
           \<and> s' = flush_order x' s1"
  using assms by (auto simp: buy_step_def Let_def split: sum.splits)

lemma sell_step_Inr:
  assumes "sell_step s n uid ticker x = Inr (s', n')"
  shows "\<exists>s1 x'. execute_sell s uid (user_id x) ticker (price x) (min (amount x) (amount n)) = Inr s1
           \<and> partially_execute_order x (min (amount x) (amount n)) = Inr x'
           \<and> partially_execute_order n (min (amount x) (amount n)) = Inr n'
           \<and> s' = flush_order x' s1"
  using assms by (auto simp: sell_step_def Let_def split: sum.splits)

lemma buy_step_transactions:
  assumes "buy_step base s n uid ticker x = Inr (s', n')"
  shows "\<exists>t. transactions s' = transactions s @ [t] \<and> price x = Some (t_price t)
           \<and> user_from_id t = user_id x \<and> user_to_id t = uid"
proof -
  from buy_step_Inr [OF assms] obtain s1 x' where
    e: "execute_buy base s (user_id x) uid ticker (price x) (min (amount x) (amount n)) = Inr s1"
    and s': "s' = flush_order x' s1" by blast
  from execute_buy_Inr [OF e] show ?thesis
    by (auto simp: s' flush_order_def add_quantity_def add_balance_def)
qed

lemma sell_step_transactions:
  assumes "sell_step s n uid ticker x = Inr (s', n')"
  shows "\<exists>t. transactions s' = transactions s @ [t] \<and> price x = Some (t_price t)
           \<and> user_to_id t = user_id x \<and> user_from_id t = uid"
proof -
  from sell_step_Inr [OF assms] obtain s1 x' where
    e: "execute_sell s uid (user_id x) ticker (price x) (min (amount x) (amount n)) = Inr s1"
    and s': "s' = flush_order x' s1" by blast
  from execute_sell_Inr [OF e] show ?thesis
    by (auto simp: s' flush_order_def add_quantity_def add_balance_def)
qed

lemma match_buy_trades:
  assumes "match_buy base s n pr uid ticker book = Inr (s', n')"
  shows "\<exists>ts. transactions s' = transactions s @ ts \<and> length ts \<le> length book
           \<and> map (\<lambda>t. Some (t_price t)) ts = map price (take (length ts) book)
           \<and> map user_from_id ts = map user_id (take (length ts) book)"
  using assms
proof (induction book arbitrary: s n)
  case Nil
  then show ?case by simp
next
  case (Cons x book)
  show ?case
  proof (cases "buy_break n pr x")
    case (Inl e)
    with Cons.prems show ?thesis by simp
  next
    case (Inr stop)
    show ?thesis
    proof (cases stop)
      case True
      with Inr Cons.prems show ?thesis by simp
    next
      case False
      with Inr Cons.prems obtain s1 n1 where
        st: "buy_step base s n uid ticker x = Inr (s1, n1)"
        and m: "match_buy base s1 n1 pr uid ticker book = Inr (s', n')"
        by (auto split: sum.splits)
      from buy_step_transactions [OF st] obtain t where
        t: "transactions s1 = transactions s @ [t]" "price x = Some (t_price t)"
           "user_from_id t = user_id x" by blast
      from Cons.IH [OF m] obtain ts where
        ts: "transactions s' = transactions s1 @ ts" "length ts \<le> length book"
            "map (\<lambda>t. Some (t_price t)) ts = map price (take (length ts) book)"
            "map user_from_id ts = map user_id (take (length ts) book)" by blast
      have "transactions s' = transactions s @ (t # ts)" using t ts by simp
      moreover have "length (t # ts) \<le> length (x # book)" using ts by simp
      moreover have "map (\<lambda>t. Some (t_price t)) (t # ts) = map price (take (length (t # ts)) (x # book))"
        using t ts by simp
      moreover have "map user_from_id (t # ts) = map user_id (take (length (t # ts)) (x # book))"
        using t ts by simp
      ultimately show ?thesis by blast
    qed
  qed
qed

lemma match_sell_trades:
  assumes "match_sell s n pr uid ticker book = Inr (s', n')"
  shows "\<exists>ts. transactions s' = transactions s @ ts \<and> length ts \<le> length book
           \<and> map (\<lambda>t. Some (t_price t)) ts = map price (take (length ts) book)
           \<and> map user_to_id ts = map user_id (take (length ts) book)"
  using assms
proof (induction book arbitrary: s n)
  case Nil
  then show ?case by simp
next
  case (Cons x book)
  show ?case
  proof (cases "sell_break n pr x")
    case (Inl e)
    with Cons.prems show ?thesis by simp
  next
    case (Inr stop)
    show ?thesis
    proof (cases stop)
      case True
      with Inr Cons.prems show ?thesis by simp
    next
      case False
      with Inr Cons.prems obtain s1 n1 where
        st: "sell_step s n uid ticker x = Inr (s1, n1)"
        and m: "match_sell s1 n1 pr uid ticker book = Inr (s', n')"
        by (auto split: sum.splits)
      from sell_step_transactions [OF st] obtain t where
        t: "transactions s1 = transactions s @ [t]" "price x = Some (t_price t)"
           "user_to_id t = user_id x" by blast
      from Cons.IH [OF m] obtain ts where
        ts: "transactions s' = transactions s1 @ ts" "length ts \<le> length book"
            "map (\<lambda>t. Some (t_price t)) ts = map price (take (length ts) book)"
            "map user_to_id ts = map user_id (take (length ts) book)" by blast
      have "transactions s' = transactions s @ (t # ts)" using t ts by simp
      moreover have "length (t # ts) \<le> length (x # book)" using ts by simp
      moreover have "map (\<lambda>t. Some (t_price t)) (t # ts) = map price (take (length (t # ts)) (x # book))"
        using t ts by simp
      moreover have "map user_to_id (t # ts) = map user_id (take (length (t # ts)) (x # book))"
        using t ts by simp
      ultimately show ?thesis by blast
    qed
  qed
qed

lemma book_key_goes_before: "book_key d a \<le> book_key d b \<Longrightarrow> goes_before d a b"
  by (cases d; cases "price a"; cases "price b")
     (auto simp: book_key_def goes_before_def less_eq_prod_def)

lemma freeze_balance_transactions:
  "freeze_balance base s uid t a = Inr sf \<Longrightarrow> transactions sf = transactions s"
  by (auto simp: freeze_balance_def add_balance_def add_quantity_def
           split: option.splits sum.splits if_splits)

lemma buy_residue_transactions:
  "buy_residue base s n pr uid = Inr s2 \<Longrightarrow> transactions s2 = transactions s"
  by (auto simp: buy_residue_def split: if_splits option.splits dest: freeze_balance_transactions)

lemma sell_residue_transactions:
  "sell_residue base s n pr uid ticker = Inr s2 \<Longrightarrow> transactions s2 = transactions s"
  by (auto simp: sell_residue_def split: if_splits dest: freeze_balance_transactions)

lemma place_order_trades:
  assumes "snd (place_order base s new_id now dir ticker qty pr uid) = Inr order"
  shows "\<exists>ts. transactions (fst (place_order base s new_id now dir ticker qty pr uid))
                = transactions s @ ts
           \<and> length ts \<le> length (get_orders s ticker (opposite dir) (nat qty))
           \<and> map (\<lambda>t. Some (t_price t)) ts
                = map price (take (length ts) (get_orders s ticker (opposite dir) (nat qty)))
           \<and> map (resting_party dir) ts
                = map user_id (take (length ts) (get_orders s ticker (opposite dir) (nat qty)))"
proof (cases dir)
  case BUY
  define pr' where "pr' = (if truthy pr then pr else None)"
  have po: "place_order base s new_id now dir ticker qty pr uid
              = create_limit_buy_order base s new_id now ticker qty pr' uid"
    using BUY by (simp add: place_order_def create_market_buy_order_def pr'_def)
  obtain s1 where c: "create_limit_buy_order base s new_id now ticker qty pr' uid = (s1, Inr order)"
    using assms po by (cases "create_limit_buy_order base s new_id now ticker qty pr' uid") simp
  from create_limit_buy_order_Inr [OF c] obtain s' s2 where
    m: "match_buy base s (new_Order new_id uid ticker qty pr' BID now) pr' uid ticker
          (get_orders s ticker ASK (nat qty)) = Inr (s', order)"
    and r: "buy_residue base s' order pr' uid = Inr s2" and s1: "s1 = session_add order s2"
    by blast
  have t1: "transactions s1 = transactions s'"
    using buy_residue_transactions [OF r] by (simp add: s1 session_add_def)
  have fs: "fst (place_order base s new_id now dir ticker qty pr uid) = s1"
    using po c by simp
  have rp: "resting_party dir = user_from_id" and op: "opposite dir = ASK"
    using BUY by (simp_all add: resting_party_def opposite_def fun_eq_iff)
  from match_buy_trades [OF m] show ?thesis
    unfolding fs rp op t1 by blast
next
  case SELL
  define pr' where "pr' = (if truthy pr then pr else None)"
  have po: "place_order base s new_id now dir ticker qty pr uid
              = create_limit_sell_order base s new_id now ticker qty pr' uid"
    using SELL by (simp add: place_order_def create_market_sell_order_def pr'_def)
  obtain s1 where c: "create_limit_sell_order base s new_id now ticker qty pr' uid = (s1, Inr order)"
    using assms po by (cases "create_limit_sell_order base s new_id now ticker qty pr' uid") simp
  from create_limit_sell_order_Inr [OF c] obtain s' s2 where
    m: "match_sell s (new_Order new_id uid ticker qty pr' ASK now) pr' uid ticker
          (get_orders s ticker BID (nat qty)) = Inr (s', order)"
    and r: "sell_residue base s' order pr' uid ticker = Inr s2" and s1: "s1 = session_add order s2"
    by blast
  have t1: "transactions s1 = transactions s'"
    using sell_residue_transactions [OF r] by (simp add: s1 session_add_def)
  have fs: "fst (place_order base s new_id now dir ticker qty pr uid) = s1"
    using po c by simp
  have rp: "resting_party dir = user_to_id" and op: "opposite dir = BID"
    using SELL by (simp_all add: resting_party_def opposite_def fun_eq_iff)
  from match_sell_trades [OF m] show ?thesis
    unfolding fs rp op t1 by blast
qed



text \<open>
  C5: \<open>get_orders\<close> returns only resting orders (NEW or PARTIALLY_EXECUTED) of the asked
  ticker and side; they are sorted best price first, ties by creation time; an order cut
  off by the limit is not ahead of any returned one; and the fills of a submission are
  made against the orders of the book view from its head on, in its order.
\<close>

theorem book_view_price_time_priority:
  "(\<forall>x\<in>set (get_orders s ticker d limit).
       x \<in> set (orders s) \<and> instrument_ticker x = ticker \<and> direction x = d
       \<and> status x \<in> {NEW, PARTIALLY_EXECUTED})
   \<and> sorted_wrt (goes_before d) (get_orders s ticker d limit)
   \<and> (\<forall>y\<in>set (orders s).
         instrument_ticker y = ticker \<and> direction y = d \<and> status y \<in> {NEW, PARTIALLY_EXECUTED}
         \<and> y \<notin> set (get_orders s ticker d limit)
         \<longrightarrow> (\<forall>x\<in>set (get_orders s ticker d limit). goes_before d x y))
   \<and> (\<forall>order. snd (place_order base s new_id now dir ticker qty pr uid) = Inr order \<longrightarrow>
         map (resting_party dir)
           (new_trades s (fst (place_order base s new_id now dir ticker qty pr uid)))
         = map user_id
             (take (length (new_trades s (fst (place_order base s new_id now dir ticker qty pr uid))))
                (get_orders s ticker (opposite dir) (nat qty))))"
proof -
  define rest where "rest = filter (\<lambda>x. instrument_ticker x = ticker \<and> direction x = d
                     \<and> status x \<in> {NEW, PARTIALLY_EXECUTED}) (orders s)"
  define sorted_book where "sorted_book = sort_key (book_key d) rest"
  have g: "get_orders s ticker d limit = take limit sorted_book"
    by (simp add: get_orders_def sorted_book_def rest_def)
  have sb: "sorted_wrt (goes_before d) sorted_book"
  proof -
    have "sorted (map (book_key d) sorted_book)" by (simp add: sorted_book_def)
    then have "sorted_wrt (\<lambda>a b. book_key d a \<le> book_key d b) sorted_book"
      by (simp add: sorted_map)
    then show ?thesis
      by (rule sorted_wrt_mono_rel [rotated]) (simp add: book_key_goes_before)
  qed
  have set_sb: "set sorted_book = set rest" by (simp add: sorted_book_def)
  have 1: "\<forall>x\<in>set (get_orders s ticker d limit).
       x \<in> set (orders s) \<and> instrument_ticker x = ticker \<and> direction x = d
       \<and> status x \<in> {NEW, PARTIALLY_EXECUTED}"
  proof
    fix x assume "x \<in> set (get_orders s ticker d limit)"
    then have "x \<in> set rest" using set_sb by (auto simp: g dest: in_set_takeD)
    then show "x \<in> set (orders s) \<and> instrument_ticker x = ticker \<and> direction x = d
       \<and> status x \<in> {NEW, PARTIALLY_EXECUTED}" by (simp add: rest_def)
  qed
  have 2: "sorted_wrt (goes_before d) (get_orders s ticker d limit)"
    unfolding g using sb by (rule sorted_wrt_take)
  have 3: "\<forall>y\<in>set (orders s).
         instrument_ticker y = ticker \<and> direction y = d \<and> status y \<in> {NEW, PARTIALLY_EXECUTED}
         \<and> y \<notin> set (get_orders s ticker d limit)
         \<longrightarrow> (\<forall>x\<in>set (get_orders s ticker d limit). goes_before d x y)"
  proof (intro ballI impI)
    fix y x
    assume y: "y \<in> set (orders s)"
      "instrument_ticker y = ticker \<and> direction y = d \<and> status y \<in> {NEW, PARTIALLY_EXECUTED}
         \<and> y \<notin> set (get_orders s ticker d limit)"
      and x: "x \<in> set (get_orders s ticker d limit)"
    have "y \<in> set sorted_book" using y by (simp add: set_sb rest_def)
    then have "y \<in> set (take limit sorted_book) \<union> set (drop limit sorted_book)"
      by (simp add: set_append [symmetric] del: set_append)
    then have yd: "y \<in> set (drop limit sorted_book)" using y(2) by (simp add: g)
    have "sorted_wrt (goes_before d) (take limit sorted_book @ drop limit sorted_book)"
      using sb by simp
    then show "goes_before d x y" using x yd unfolding g sorted_wrt_append by blast
  qed
  have 4: "\<forall>order. snd (place_order base s new_id now dir ticker qty pr uid) = Inr order \<longrightarrow>
         map (resting_party dir)
           (new_trades s (fst (place_order base s new_id now dir ticker qty pr uid)))
         = map user_id
             (take (length (new_trades s (fst (place_order base s new_id now dir ticker qty pr uid))))
                (get_orders s ticker (opposite dir) (nat qty)))"
  proof (intro allI impI)
    fix order assume "snd (place_order base s new_id now dir ticker qty pr uid) = Inr order"
    from place_order_trades [OF this] obtain ts where
      "transactions (fst (place_order base s new_id now dir ticker qty pr uid)) = transactions s @ ts"
      "map (resting_party dir) ts
         = map user_id (take (length ts) (get_orders s ticker (opposite dir) (nat qty)))"
      by blast
    then show "map (resting_party dir)
           (new_trades s (fst (place_order base s new_id now dir ticker qty pr uid)))
         = map user_id
             (take (length (new_trades s (fst (place_order base s new_id now dir ticker qty pr uid))))
                (get_orders s ticker (opposite dir) (nat qty)))"
      by (simp add: new_trades_def)
  qed
  from 1 2 3 4 show ?thesis by blast
qed

theorem book_view_price_time_priority_witness:
  "get_orders scenario_priority ''MEMCOIN'' ASK 7
     = [\<lparr>o_id = 20, user_id = 3, instrument_ticker = ''MEMCOIN'', amount = 5,
         filled = 0, price = Some 100, direction = ASK, status = NEW, created_at = 1\<rparr>,
        \<lparr>o_id = 21, user_id = 4, instrument_ticker = ''MEMCOIN'', amount = 10,
         filled = 0, price = Some 100, direction = ASK, status = NEW, created_at = 2\<rparr>]
   \<and> goes_before ASK
        \<lparr>o_id = 20, user_id = 3, instrument_ticker = ''MEMCOIN'', amount = 5,
         filled = 0, price = Some 100, direction = ASK, status = NEW, created_at = 1\<rparr>
        \<lparr>o_id = 21, user_id = 4, instrument_ticker = ''MEMCOIN'', amount = 10,
         filled = 0, price = Some 100, direction = ASK, status = NEW, created_at = 2\<rparr>
   \<and> map user_from_id
        (transactions (fst (place_order ''RUB'' scenario_priority 30 3 BUY ''MEMCOIN'' 7 (Some 100) 5)))
       = [3, 4]"
proof -
  have b: "get_orders scenario_priority ''MEMCOIN'' ASK 7
     = [\<lparr>o_id = 20, user_id = 3, instrument_ticker = ''MEMCOIN'', amount = 5,
         filled = 0, price = Some 100, direction = ASK, status = NEW, created_at = 1\<rparr>,
        \<lparr>o_id = 21, user_id = 4, instrument_ticker = ''MEMCOIN'', amount = 10,
         filled = 0, price = Some 100, direction = ASK, status = NEW, created_at = 2\<rparr>]"
    by code_simp
  have h: "snd (place_order ''RUB'' scenario_priority 30 3 BUY ''MEMCOIN'' 7 (Some 100) 5)
             = Inr \<lparr>o_id = 30, user_id = 5, instrument_ticker = ''MEMCOIN'', amount = 0, filled = 7,
                    price = Some 100, direction = BID, status = EXECUTED, created_at = 3\<rparr>"
    by code_simp
  have l: "length (transactions
             (fst (place_order ''RUB'' scenario_priority 30 3 BUY ''MEMCOIN'' 7 (Some 100) 5))) = 2"
    by code_simp
  have t: "transactions scenario_priority = []" by (simp add: scenario_priority_def)
  have rp: "resting_party BUY = user_from_id" by (simp add: resting_party_def fun_eq_iff)
  show ?thesis
    using book_view_price_time_priority
            [of scenario_priority "''MEMCOIN''" ASK 7 "''RUB''" 30 3 BUY 7 "Some 100" 5] h l
    by (simp add: b t new_trades_def opposite_def rp)
qed

section \<open>The invariant of stored orders\<close>

lemma set_upd_first:
  "y \<in> set (upd_first P f xs) \<Longrightarrow> y \<in> set xs \<or> (\<exists>x\<in>set xs. P x \<and> y = f x)"
  by (induction xs) (auto split: if_splits)

lemma map_upd_first:
  "(\<And>x. x \<in> set xs \<Longrightarrow> P x \<Longrightarrow> g (f x) = g x) \<Longrightarrow> map g (upd_first P f xs) = map g xs"
  by (induction xs) auto

lemma partially_execute_order_invariant:
  assumes "partially_execute_order x c = Inr x'" and "order_invariant x" and "0 \<le> c"
  shows "order_invariant x' \<and> status x' \<noteq> CANCELLED \<and> qty_of x' = qty_of x \<and> o_id x' = o_id x"
  using assms
  by (auto simp: partially_execute_order_def order_invariant_def qty_of_def split: if_splits)

lemma fill_preserves:
  assumes x': "partially_execute_order x c = Inr x'"
      and n': "partially_execute_order n c = Inr n'"
      and c: "c = min (amount x) (amount n)"
      and ix: "order_invariant x" and inn: "order_invariant n"
      and all: "\<forall>y\<in>set ords. order_invariant y"
      and cons: "\<forall>y\<in>set ords. o_id y = o_id x \<longrightarrow> qty_of y = qty_of x"
  shows "(\<forall>y\<in>set (upd_first (\<lambda>y. o_id y = o_id x') (\<lambda>_. x') ords). order_invariant y)
       \<and> map id_qty (upd_first (\<lambda>y. o_id y = o_id x') (\<lambda>_. x') ords) = map id_qty ords
       \<and> order_invariant n' \<and> status n' \<noteq> CANCELLED \<and> qty_of n' = qty_of n \<and> o_id n' = o_id n"
proof -
  have c0: "0 \<le> c" using c ix inn by (simp add: order_invariant_def)
  from partially_execute_order_invariant [OF x' ix c0]
  have px: "order_invariant x'" "qty_of x' = qty_of x" "o_id x' = o_id x" by simp_all
  from partially_execute_order_invariant [OF n' inn c0]
  have pn: "order_invariant n' \<and> status n' \<noteq> CANCELLED \<and> qty_of n' = qty_of n \<and> o_id n' = o_id n" .
  have 1: "\<forall>y\<in>set (upd_first (\<lambda>y. o_id y = o_id x') (\<lambda>_. x') ords). order_invariant y"
    using all px(1) by (auto dest: set_upd_first)
  have 2: "map id_qty (upd_first (\<lambda>y. o_id y = o_id x') (\<lambda>_. x') ords) = map id_qty ords"
  proof (rule map_upd_first)
    fix y assume "y \<in> set ords" "o_id y = o_id x'"
    then show "id_qty x' = id_qty y" using cons px by (simp add: id_qty_def)
  qed
  show ?thesis using 1 2 pn by simp
qed

lemma execute_buy_orders: "execute_buy base s a b t p c = Inr s1 \<Longrightarrow> orders s1 = orders s"
  by (drule execute_buy_Inr) (auto simp: add_quantity_def add_balance_def)

lemma execute_sell_orders: "execute_sell s a b t p c = Inr s1 \<Longrightarrow> orders s1 = orders s"
  by (drule execute_sell_Inr) (auto simp: add_quantity_def add_balance_def)

lemma buy_step_invariant:
  assumes st: "buy_step base s n uid ticker x = Inr (s', n')"
      and ix: "order_invariant x" and inn: "order_invariant n"
      and all: "\<forall>y\<in>set (orders s). order_invariant y"
      and cons: "\<forall>y\<in>set (orders s). o_id y = o_id x \<longrightarrow> qty_of y = qty_of x"
  shows "(\<forall>y\<in>set (orders s'). order_invariant y)
       \<and> map id_qty (orders s') = map id_qty (orders s)
       \<and> order_invariant n' \<and> status n' \<noteq> CANCELLED \<and> qty_of n' = qty_of n \<and> o_id n' = o_id n"
proof -
  from buy_step_Inr [OF st] obtain s1 x' where
    e: "execute_buy base s (user_id x) uid ticker (price x) (min (amount x) (amount n)) = Inr s1"
    and x': "partially_execute_order x (min (amount x) (amount n)) = Inr x'"
    and n': "partially_execute_order n (min (amount x) (amount n)) = Inr n'"
    and s': "s' = flush_order x' s1" by blast
  have o: "orders s' = upd_first (\<lambda>y. o_id y = o_id x') (\<lambda>_. x') (orders s)"
    using execute_buy_orders [OF e] by (simp add: s' flush_order_def)
  show ?thesis unfolding o by (rule fill_preserves [OF x' n' refl ix inn all cons])
qed

lemma sell_step_invariant:
  assumes st: "sell_step s n uid ticker x = Inr (s', n')"
      and ix: "order_invariant x" and inn: "order_invariant n"
      and all: "\<forall>y\<in>set (orders s). order_invariant y"
      and cons: "\<forall>y\<in>set (orders s). o_id y = o_id x \<longrightarrow> qty_of y = qty_of x"
  shows "(\<forall>y\<in>set (orders s'). order_invariant y)
       \<and> map id_qty (orders s') = map id_qty (orders s)
       \<and> order_invariant n' \<and> status n' \<noteq> CANCELLED \<and> qty_of n' = qty_of n \<and> o_id n' = o_id n"
proof -
  from sell_step_Inr [OF st] obtain s1 x' where
    e: "execute_sell s uid (user_id x) ticker (price x) (min (amount x) (amount n)) = Inr s1"
    and x': "partially_execute_order x (min (amount x) (amount n)) = Inr x'"
    and n': "partially_execute_order n (min (amount x) (amount n)) = Inr n'"
    and s': "s' = flush_order x' s1" by blast
  have o: "orders s' = upd_first (\<lambda>y. o_id y = o_id x') (\<lambda>_. x') (orders s)"
    using execute_sell_orders [OF e] by (simp add: s' flush_order_def)
  show ?thesis unfolding o by (rule fill_preserves [OF x' n' refl ix inn all cons])
qed

lemma cons_transfer:
  assumes "map id_qty ys = map id_qty xs"
      and "\<forall>y\<in>set xs. o_id y = i \<longrightarrow> qty_of y = q"
  shows "\<forall>y\<in>set ys. o_id y = i \<longrightarrow> qty_of y = q"
proof -
  have "\<forall>p\<in>set (map id_qty xs). fst p = i \<longrightarrow> snd p = q"
    using assms(2) by (simp add: id_qty_def)
  then have "\<forall>p\<in>set (map id_qty ys). fst p = i \<longrightarrow> snd p = q"
    by (simp only: assms(1))
  then show ?thesis by (simp add: id_qty_def)
qed

lemma match_buy_invariant:
  assumes "match_buy base s n pr uid ticker book = Inr (s', n')"
      and "order_invariant n" and "status n \<noteq> CANCELLED"
      and "\<forall>y\<in>set (orders s). order_invariant y"
      and "\<forall>x\<in>set book. order_invariant x
             \<and> (\<forall>y\<in>set (orders s). o_id y = o_id x \<longrightarrow> qty_of y = qty_of x)"
  shows "(\<forall>y\<in>set (orders s'). order_invariant y)
       \<and> map id_qty (orders s') = map id_qty (orders s)
       \<and> order_invariant n' \<and> status n' \<noteq> CANCELLED \<and> qty_of n' = qty_of n \<and> o_id n' = o_id n"
  using assms
proof (induction book arbitrary: s n)
  case Nil
  then show ?case by simp
next
  case (Cons x book)
  show ?case
  proof (cases "buy_break n pr x")
    case (Inl e)
    with Cons.prems(1) show ?thesis by simp
  next
    case (Inr stop)
    show ?thesis
    proof (cases stop)
      case True
      with Inr Cons.prems show ?thesis by simp
    next
      case False
      with Inr Cons.prems(1) obtain s1 n1 where
        st: "buy_step base s n uid ticker x = Inr (s1, n1)"
        and m: "match_buy base s1 n1 pr uid ticker book = Inr (s', n')"
        by (auto split: sum.splits)
      have ix: "order_invariant x"
        and cons: "\<forall>y\<in>set (orders s). o_id y = o_id x \<longrightarrow> qty_of y = qty_of x"
        using Cons.prems(5) by simp_all
      from buy_step_invariant [OF st ix Cons.prems(2) Cons.prems(4) cons]
      have a: "\<forall>y\<in>set (orders s1). order_invariant y"
        and b: "map id_qty (orders s1) = map id_qty (orders s)"
        and c: "order_invariant n1" "status n1 \<noteq> CANCELLED" "qty_of n1 = qty_of n" "o_id n1 = o_id n"
        by simp_all
      have d: "\<forall>x\<in>set book. order_invariant x
             \<and> (\<forall>y\<in>set (orders s1). o_id y = o_id x \<longrightarrow> qty_of y = qty_of x)"
      proof
        fix z assume z: "z \<in> set book"
        then have "order_invariant z"
          and "\<forall>y\<in>set (orders s). o_id y = o_id z \<longrightarrow> qty_of y = qty_of z"
          using Cons.prems(5) by simp_all
        then show "order_invariant z
             \<and> (\<forall>y\<in>set (orders s1). o_id y = o_id z \<longrightarrow> qty_of y = qty_of z)"
          using cons_transfer [OF b] by blast
      qed
      from Cons.IH [OF m c(1) c(2) a d] b c show ?thesis by simp
    qed
  qed
qed

lemma match_sell_invariant:
  assumes "match_sell s n pr uid ticker book = Inr (s', n')"
      and "order_invariant n" and "status n \<noteq> CANCELLED"
      and "\<forall>y\<in>set (orders s). order_invariant y"
      and "\<forall>x\<in>set book. order_invariant x
             \<and> (\<forall>y\<in>set (orders s). o_id y = o_id x \<longrightarrow> qty_of y = qty_of x)"
  shows "(\<forall>y\<in>set (orders s'). order_invariant y)
       \<and> map id_qty (orders s') = map id_qty (orders s)
       \<and> order_invariant n' \<and> status n' \<noteq> CANCELLED \<and> qty_of n' = qty_of n \<and> o_id n' = o_id n"
  using assms
proof (induction book arbitrary: s n)
  case Nil
  then show ?case by simp
next
  case (Cons x book)
  show ?case
  proof (cases "sell_break n pr x")
    case (Inl e)
    with Cons.prems(1) show ?thesis by simp
  next
    case (Inr stop)
    show ?thesis
    proof (cases stop)
      case True
      with Inr Cons.prems show ?thesis by simp
    next
      case False
      with Inr Cons.prems(1) obtain s1 n1 where
        st: "sell_step s n uid ticker x = Inr (s1, n1)"
        and m: "match_sell s1 n1 pr uid ticker book = Inr (s', n')"
        by (auto split: sum.splits)
      have ix: "order_invariant x"
        and cons: "\<forall>y\<in>set (orders s). o_id y = o_id x \<longrightarrow> qty_of y = qty_of x"
        using Cons.prems(5) by simp_all
      from sell_step_invariant [OF st ix Cons.prems(2) Cons.prems(4) cons]
      have a: "\<forall>y\<in>set (orders s1). order_invariant y"
        and b: "map id_qty (orders s1) = map id_qty (orders s)"
        and c: "order_invariant n1" "status n1 \<noteq> CANCELLED" "qty_of n1 = qty_of n" "o_id n1 = o_id n"
        by simp_all
      have d: "\<forall>x\<in>set book. order_invariant x
             \<and> (\<forall>y\<in>set (orders s1). o_id y = o_id x \<longrightarrow> qty_of y = qty_of x)"
      proof
        fix z assume z: "z \<in> set book"
        then have "order_invariant z"
          and "\<forall>y\<in>set (orders s). o_id y = o_id z \<longrightarrow> qty_of y = qty_of z"
          using Cons.prems(5) by simp_all
        then show "order_invariant z
             \<and> (\<forall>y\<in>set (orders s1). o_id y = o_id z \<longrightarrow> qty_of y = qty_of z)"
          using cons_transfer [OF b] by blast
      qed
      from Cons.IH [OF m c(1) c(2) a d] b c show ?thesis by simp
    qed
  qed
qed

lemma get_orders_subset: "x \<in> set (get_orders s ticker d limit) \<Longrightarrow> x \<in> set (orders s)"
  by (auto simp: get_orders_def dest: in_set_takeD)

lemma distinct_ids_consistent:
  assumes "distinct (map o_id xs)" and "x \<in> set xs"
  shows "\<forall>y\<in>set xs. o_id y = o_id x \<longrightarrow> qty_of y = qty_of x"
  using assms by (auto simp: distinct_map dest: inj_onD)

lemma unfreeze_balance_orders:
  "unfreeze_balance base s uid t a = Inr su \<Longrightarrow> orders su = orders s"
  by (auto simp: unfreeze_balance_def add_balance_def add_quantity_def
           split: option.splits sum.splits if_splits)

lemma buy_residue_orders: "buy_residue base s n pr uid = Inr s2 \<Longrightarrow> orders s2 = orders s"
  by (auto simp: buy_residue_def split: if_splits option.splits dest: freeze_balance_orders)

lemma sell_residue_orders: "sell_residue base s n pr uid ticker = Inr s2 \<Longrightarrow> orders s2 = orders s"
  by (auto simp: sell_residue_def split: if_splits dest: freeze_balance_orders)

lemma new_Order_invariant:
  "0 < qty \<Longrightarrow> order_invariant (new_Order new_id uid ticker qty pr d now)
     \<and> status (new_Order new_id uid ticker qty pr d now) \<noteq> CANCELLED
     \<and> qty_of (new_Order new_id uid ticker qty pr d now) = qty
     \<and> o_id (new_Order new_id uid ticker qty pr d now) = new_id"
  by (simp add: new_Order_def order_invariant_def qty_of_def)

lemma book_invariant:
  assumes "\<forall>y\<in>set (orders s). order_invariant y" and "distinct (map o_id (orders s))"
  shows "\<forall>x\<in>set (get_orders s ticker d limit). order_invariant x
             \<and> (\<forall>y\<in>set (orders s). o_id y = o_id x \<longrightarrow> qty_of y = qty_of x)"
  using assms distinct_ids_consistent [OF assms(2)] by (blast dest: get_orders_subset)

lemma place_order_invariant:
  assumes po: "place_order base s new_id now dir ticker qty pr uid = (s1, Inr order)"
      and inv: "\<forall>y\<in>set (orders s). order_invariant y"
      and dis: "distinct (map o_id (orders s))" and q: "0 < qty"
  shows "(\<forall>y\<in>set (orders s1). order_invariant y)
       \<and> map id_qty (orders s1) = map id_qty (orders s) @ [(new_id, qty)]"
proof (cases dir)
  case BUY
  define pr' where "pr' = (if truthy pr then pr else None)"
  from po BUY have "create_limit_buy_order base s new_id now ticker qty pr' uid = (s1, Inr order)"
    by (simp add: place_order_def create_market_buy_order_def pr'_def split: if_splits)
  from create_limit_buy_order_Inr [OF this] obtain s' s2 where
    m: "match_buy base s (new_Order new_id uid ticker qty pr' BID now) pr' uid ticker
          (get_orders s ticker ASK (nat qty)) = Inr (s', order)"
    and r: "buy_residue base s' order pr' uid = Inr s2" and s1: "s1 = session_add order s2"
    by blast
  note n = new_Order_invariant [OF q, of new_id uid ticker pr' BID now]
  from match_buy_invariant [OF m _ _ inv book_invariant [OF inv dis]] n
  have a: "\<forall>y\<in>set (orders s'). order_invariant y"
    and b: "map id_qty (orders s') = map id_qty (orders s)"
    and c: "order_invariant order" "qty_of order = qty" "o_id order = new_id"
    by simp_all
  have "orders s1 = orders s' @ [order]"
    using buy_residue_orders [OF r] by (simp add: s1 session_add_def)
  then show ?thesis using a b c by (simp add: id_qty_def)
next
  case SELL
  define pr' where "pr' = (if truthy pr then pr else None)"
  from po SELL have "create_limit_sell_order base s new_id now ticker qty pr' uid = (s1, Inr order)"
    by (simp add: place_order_def create_market_sell_order_def pr'_def split: if_splits)
  from create_limit_sell_order_Inr [OF this] obtain s' s2 where
    m: "match_sell s (new_Order new_id uid ticker qty pr' ASK now) pr' uid ticker
          (get_orders s ticker BID (nat qty)) = Inr (s', order)"
    and r: "sell_residue base s' order pr' uid ticker = Inr s2" and s1: "s1 = session_add order s2"
    by blast
  note n = new_Order_invariant [OF q, of new_id uid ticker pr' ASK now]
  from match_sell_invariant [OF m _ _ inv book_invariant [OF inv dis]] n
  have a: "\<forall>y\<in>set (orders s'). order_invariant y"
    and b: "map id_qty (orders s') = map id_qty (orders s)"
    and c: "order_invariant order" "qty_of order = qty" "o_id order = new_id"
    by simp_all
  have "orders s1 = orders s' @ [order]"
    using sell_residue_orders [OF r] by (simp add: s1 session_add_def)
  then show ?thesis using a b c by (simp add: id_qty_def)
qed

lemma create_order_state:
  "fst (create_order base s new_id now dir ticker qty pr uid) = s
   \<or> (\<exists>order. place_order base s new_id now dir ticker qty pr uid
                 = (fst (create_order base s new_id now dir ticker qty pr uid), Inr order))"
proof (cases "ticker \<in> set (instruments s)")
  case False
  then show ?thesis by (simp add: create_order_def)
next
  case True
  obtain s' r where p: "place_order base s new_id now dir ticker qty pr uid = (s', r)"
    by (cases "place_order base s new_id now dir ticker qty pr uid")
  show ?thesis
  proof (cases r)
    case (Inl e)
    with True p show ?thesis by (cases e) (simp_all add: create_order_def)
  next
    case (Inr order)
    with True p show ?thesis by (simp add: create_order_def)
  qed
qed

lemma find_Some_in: "find P xs = Some x \<Longrightarrow> x \<in> set xs \<and> P x"
  by (induction xs) (auto split: if_splits)

lemma map_upd_first_find:
  "find P xs = Some x \<Longrightarrow> g x' = g x \<Longrightarrow> map g (upd_first P (\<lambda>_. x') xs) = map g xs"
  by (induction xs) (auto split: if_splits)

lemma cancel_order_Inr:
  assumes "cancel_order base s order_id uid = Inr (s', order')"
  shows "\<exists>order s1. order_get_by_id s order_id = Some order \<and> orders s1 = orders s
           \<and> order' = order\<lparr>status := CANCELLED\<rparr> \<and> s' = flush_order order' s1"
proof (cases "order_get_by_id s order_id")
  case None
  with assms show ?thesis by (simp add: cancel_order_def)
next
  case (Some order)
  with assms obtain p where p: "price order = Some p"
    by (cases "price order") (auto simp: cancel_order_def split: if_splits)
  show ?thesis
  proof (cases "direction order")
    case ASK
    with assms Some p show ?thesis
      by (auto simp: cancel_order_def Let_def split: if_splits sum.splits
               dest: unfreeze_balance_orders)
  next
    case BID
    with assms Some p show ?thesis
      by (auto simp: cancel_order_def Let_def split: if_splits sum.splits
               dest: unfreeze_balance_orders)
  qed
qed

lemma api_cancel_order_state:
  "fst (api_cancel_order base s order_id uid) = s
   \<or> (\<exists>order'. cancel_order base s order_id uid
                  = Inr (fst (api_cancel_order base s order_id uid), order'))"
proof (cases "cancel_order base s order_id uid")
  case (Inl e)
  then show ?thesis by (cases e) (simp_all add: api_cancel_order_def)
next
  case (Inr p)
  then show ?thesis by (cases p) (simp add: api_cancel_order_def)
qed

lemma cancel_order_invariant:
  assumes c: "cancel_order base s order_id uid = Inr (s', order')"
      and inv: "\<forall>y\<in>set (orders s). order_invariant y"
  shows "(\<forall>y\<in>set (orders s'). order_invariant y) \<and> map id_qty (orders s') = map id_qty (orders s)"
proof -
  from cancel_order_Inr [OF c] obtain order s1 where
    g: "order_get_by_id s order_id = Some order" and o: "orders s1 = orders s"
    and o': "order' = order\<lparr>status := CANCELLED\<rparr>" and s': "s' = flush_order order' s1"
    by blast
  have f: "find (\<lambda>x. o_id x = order_id) (orders s) = Some order"
    using g by (simp add: order_get_by_id_def)
  from find_Some_in [OF f] have mem: "order \<in> set (orders s)" and oid: "o_id order = order_id"
    by simp_all
  have io: "order_invariant order'"
    using inv mem by (auto simp: o' order_invariant_def)
  have os: "orders s' = upd_first (\<lambda>x. o_id x = order_id) (\<lambda>_. order') (orders s)"
    by (simp add: s' flush_order_def o o' oid)
  have 1: "\<forall>y\<in>set (orders s'). order_invariant y"
    unfolding os using inv io by (auto dest: set_upd_first)
  have 2: "map id_qty (orders s') = map id_qty (orders s)"
    unfolding os by (rule map_upd_first_find [OF f]) (simp add: o' id_qty_def qty_of_def)
  show ?thesis using 1 2 by simp
qed

text \<open>
  C6: if every stored order satisfies the invariant (amount and filled not negative, a
  NEW or PARTIALLY_EXECUTED order has amount above 0, an EXECUTED one amount 0, so that
  its filled is its quantity), then so does every order after a submission of a positive
  quantity and after a cancellation, whatever their outcome; every order keeps its
  identifier and its quantity \<open>amount + filled\<close>, and an order that a submission adds
  has the submitted quantity.
\<close>

theorem committed_orders_invariant:
  assumes "\<forall>y\<in>set (orders s). order_invariant y"
      and "distinct (map o_id (orders s))" and "0 < qty"
  shows "(\<forall>y\<in>set (orders (fst (create_order base s new_id now dir ticker qty pr uid))).
            order_invariant y)
       \<and> (map id_qty (orders (fst (create_order base s new_id now dir ticker qty pr uid)))
            = map id_qty (orders s)
          \<or> map id_qty (orders (fst (create_order base s new_id now dir ticker qty pr uid)))
            = map id_qty (orders s) @ [(new_id, qty)])
       \<and> (\<forall>y\<in>set (orders (fst (api_cancel_order base s order_id caller))). order_invariant y)
       \<and> map id_qty (orders (fst (api_cancel_order base s order_id caller)))
            = map id_qty (orders s)"
proof -
  have 1: "(\<forall>y\<in>set (orders (fst (create_order base s new_id now dir ticker qty pr uid))).
            order_invariant y)
       \<and> (map id_qty (orders (fst (create_order base s new_id now dir ticker qty pr uid)))
            = map id_qty (orders s)
          \<or> map id_qty (orders (fst (create_order base s new_id now dir ticker qty pr uid)))
            = map id_qty (orders s) @ [(new_id, qty)])"
    using create_order_state [of base s new_id now dir ticker qty pr uid]
  proof
    assume "fst (create_order base s new_id now dir ticker qty pr uid) = s"
    then show ?thesis using assms(1) by simp
  next
    assume "\<exists>order. place_order base s new_id now dir ticker qty pr uid
                 = (fst (create_order base s new_id now dir ticker qty pr uid), Inr order)"
    then obtain order where "place_order base s new_id now dir ticker qty pr uid
                 = (fst (create_order base s new_id now dir ticker qty pr uid), Inr order)" ..
    from place_order_invariant [OF this assms] show ?thesis by simp
  qed
  have 2: "(\<forall>y\<in>set (orders (fst (api_cancel_order base s order_id caller))). order_invariant y)
       \<and> map id_qty (orders (fst (api_cancel_order base s order_id caller)))
            = map id_qty (orders s)"
    using api_cancel_order_state [of base s order_id caller]
  proof
    assume "fst (api_cancel_order base s order_id caller) = s"
    then show ?thesis using assms(1) by simp
  next
    assume "\<exists>order'. cancel_order base s order_id caller
                  = Inr (fst (api_cancel_order base s order_id caller), order')"
    then obtain order' where "cancel_order base s order_id caller
                  = Inr (fst (api_cancel_order base s order_id caller), order')" ..
    from cancel_order_invariant [OF this assms(1)] show ?thesis .
  qed
  from 1 2 show ?thesis by simp
qed

theorem committed_orders_invariant_witness:
  "list_all order_invariant
     (orders (fst (create_order ''RUB'' scenario_book 11 2 BUY ''MEMCOIN'' 8 (Some 100) 2)))
   \<and> map id_qty (orders (fst (create_order ''RUB'' scenario_book 11 2 BUY ''MEMCOIN'' 8 (Some 100) 2)))
       = [(10, 5), (11, 8)]
   \<and> list_all order_invariant (orders (fst (api_cancel_order ''RUB'' scenario_book 10 1)))
   \<and> map id_qty (orders (fst (api_cancel_order ''RUB'' scenario_book 10 1))) = [(10, 5)]"
proof -
  let ?s' = "fst (create_order ''RUB'' scenario_book 11 2 BUY ''MEMCOIN'' 8 (Some 100) 2)"
  have h1: "\<forall>y\<in>set (orders scenario_book). order_invariant y"
    by (simp add: scenario_book_def order_invariant_def)
  have h2: "distinct (map o_id (orders scenario_book))" by (simp add: scenario_book_def)
  have h3: "(0::int) < 8" by simp
  have e: "map id_qty (orders scenario_book) = [(10, 5)]"
    by (simp add: scenario_book_def id_qty_def qty_of_def)
  have l: "length (orders ?s') = 2" by code_simp
  have na: "map id_qty (orders ?s') \<noteq> map id_qty (orders scenario_book)"
  proof
    assume "map id_qty (orders ?s') = map id_qty (orders scenario_book)"
    then have "length (map id_qty (orders ?s')) = length (map id_qty (orders scenario_book))"
      by (rule arg_cong)
    then show False using l by (simp add: scenario_book_def)
  qed
  show ?thesis
    using committed_orders_invariant [OF h1 h2 h3, of "''RUB''" 11 2 BUY "''MEMCOIN''" "Some 100" 2 10 1]
      na
    by (simp add: e list_all_iff)
qed

section \<open>The balance query\<close>










section \<open>Conservation of holdings\<close>











































section \<open>Holdings user by user\<close>























lemma sum_list_map_cong_ids:
  assumes "map f xs = map f ys"
  shows "sum_list (map (\<lambda>x. (h (f x) :: int)) xs) = sum_list (map (\<lambda>x. h (f x)) ys)"
proof -
  have "map (\<lambda>x. h (f x)) xs = map h (map f xs)" by simp
  also have "\<dots> = map h (map f ys)" by (simp only: assms)
  also have "\<dots> = map (\<lambda>x. h (f x)) ys" by simp
  finally show ?thesis by simp
qed



end
